theory Spec2Isabelle
  imports Complex_Main
begin

section \<open>Taiwan ETF holdings scraper: data model\<close>

text \<open>
  The development follows \<^verbatim>\<open>projects/taiwan_etf_holdings/scraper.py\<close>.
  Strings are lists of characters; the dates returned by \<^verbatim>\<open>date.today()\<close> are
  calendar triples.
\<close>

datatype date = Date (year: nat) (month: nat) (day: nat)

text \<open>
  Python numbers as the scraper stores them. The dataclass annotates the numeric fields
  with \<^verbatim>\<open>float\<close>, but the code assigns the integer literal \<^verbatim>\<open>0\<close> to some of
  them, so both kinds of value occur. A finite float is represented by the real number
  that the decimal text denotes; \<^verbatim>\<open>float()\<close> rounds that number to the nearest
  binary64 value, and the rounding (with overflow to infinity and the sign of zero) is
  not part of the model.
\<close>

datatype py_float = Finite real | PosInf | NegInf | NaN

datatype py_num = PyInt int | PyFloat py_float

datatype py_error = ValueError | IndexError | DatabaseError

record ETFConfig =
  symbol :: string
  name :: string
  provider :: string
  type :: string
  url :: string

record Holding =
  etf_symbol :: string
  trade_date :: date
  holding_date :: date
  rank :: nat
  isin :: "string option"
  issuer_name :: string
  security_name :: string
  security_type :: string
  shares_held :: py_num
  market_value_twd :: py_num
  weight_pct :: py_num
  source_url :: string

section \<open>The built-in \<^verbatim>\<open>float(str)\<close>\<close>

text \<open>
  CPython's conversion of a string to a float, for ASCII text: surrounding whitespace is
  stripped; an underscore is accepted only between two digits; what remains is a signed
  decimal number with an optional fraction and exponent, or one of \<^verbatim>\<open>inf\<close>,
  \<^verbatim>\<open>infinity\<close>, \<^verbatim>\<open>nan\<close> in any letter case. Anything else raises
  \<^verbatim>\<open>ValueError\<close>. The definitions cover ASCII text only: Python also accepts
  decimal digits and whitespace outside ASCII (a no-break space after the number, say),
  and on text that contains such characters the model answers \<^verbatim>\<open>ValueError\<close>
  where Python returns a number. The statements below that name a converted value do
  so for ASCII text; the others hold whatever the conversion returns.
\<close>

definition is_space :: "char \<Rightarrow> bool" where
  "is_space c = (c \<in> set [CHR '' '', CHR 0x09, CHR 0x0A, CHR 0x0B, CHR 0x0C, CHR 0x0D])"

definition is_digit :: "char \<Rightarrow> bool" where
  "is_digit c = (c \<in> set ''0123456789'')"

definition digit_value :: "char \<Rightarrow> nat" where
  "digit_value c = (of_char c :: nat) - 48"

definition digits_value :: "string \<Rightarrow> nat" where
  "digits_value ds = foldl (\<lambda>a c. 10 * a + digit_value c) 0 ds"

definition to_lower :: "char \<Rightarrow> char" where
  "to_lower c =
     (if 65 \<le> (of_char c :: nat) \<and> (of_char c :: nat) \<le> 90
      then char_of ((of_char c :: nat) + 32) else c)"

definition strip :: "string \<Rightarrow> string" where
  "strip s = rev (dropWhile is_space (rev (dropWhile is_space s)))"

text \<open>
  The underscore rule: scanning with the previous character in hand, an underscore must
  follow a digit, the character after an underscore must be a digit, and the text must
  not end in an underscore.
\<close>

fun underscores_ok :: "char \<Rightarrow> string \<Rightarrow> bool" where
  "underscores_ok prev [] = (prev \<noteq> CHR ''_'')"
| "underscores_ok prev (c # cs) =
     ((if c = CHR ''_'' then is_digit prev
       else if prev = CHR ''_'' then is_digit c else True)
      \<and> underscores_ok c cs)"

definition parse_sign :: "string \<Rightarrow> bool \<times> string" where
  "parse_sign s =
     (case s of
        [] \<Rightarrow> (False, [])
      | c # cs \<Rightarrow>
          if c = CHR ''-'' then (True, cs)
          else if c = CHR ''+'' then (False, cs)
          else (False, s))"

text \<open>The exponent part: empty, or \<^verbatim>\<open>e\<close>/\<^verbatim>\<open>E\<close>, an optional sign and digits.\<close>

definition parse_exponent :: "string \<Rightarrow> int option" where
  "parse_exponent s =
     (case s of
        [] \<Rightarrow> Some 0
      | c # cs \<Rightarrow>
          if c = CHR ''e'' \<or> c = CHR ''E'' then
            (let (neg, ds) = parse_sign cs in
             if ds \<noteq> [] \<and> list_all is_digit ds
             then Some (if neg then - int (digits_value ds) else int (digits_value ds))
             else None)
          else None)"

definition scale10 :: "int \<Rightarrow> int \<Rightarrow> real" where
  "scale10 m e = (if 0 \<le> e then of_int m * 10 ^ nat e else of_int m / 10 ^ nat (- e))"

definition parse_decimal :: "string \<Rightarrow> py_float option" where
  "parse_decimal s =
     (let (neg, s1) = parse_sign s;
          ip = takeWhile is_digit s1;
          s2 = dropWhile is_digit s1;
          (fp, s3) =
            (case s2 of
               [] \<Rightarrow> ([], [])
             | c # cs \<Rightarrow>
                 if c = CHR ''.'' then (takeWhile is_digit cs, dropWhile is_digit cs)
                 else ([], s2))
      in if ip = [] \<and> fp = [] then None
         else
           (case parse_exponent s3 of
              None \<Rightarrow> None
            | Some e \<Rightarrow>
                let m = int (digits_value (ip @ fp)) in
                Some (Finite (scale10 (if neg then - m else m) (e - int (length fp))))))"

definition parse_inf_or_nan :: "string \<Rightarrow> py_float option" where
  "parse_inf_or_nan s =
     (let (neg, s1) = parse_sign s; w = map to_lower s1 in
      if w = ''inf'' \<or> w = ''infinity'' then Some (if neg then NegInf else PosInf)
      else if w = ''nan'' then Some NaN
      else None)"

definition py_float_of_str :: "string \<Rightarrow> py_error + py_float" where
  "py_float_of_str s =
     (let t = strip s in
      if \<not> underscores_ok (CHR 0x00) t then Inl ValueError
      else
        (let u = filter (\<lambda>c. c \<noteq> CHR ''_'') t in
         case parse_decimal u of
           Some x \<Rightarrow> Inr x
         | None \<Rightarrow>
             (case parse_inf_or_nan u of
                Some x \<Rightarrow> Inr x
              | None \<Rightarrow> Inl ValueError)))"

text \<open>\<^verbatim>\<open>s.replace(c, '')\<close> for a one-character pattern: every occurrence is removed.\<close>

definition remove_char :: "char \<Rightarrow> string \<Rightarrow> string" where
  "remove_char c s = filter (\<lambda>x. x \<noteq> c) s"

section \<open>The holdings parser\<close>

text \<open>
  BeautifulSoup is outside the repository. The parser sees a page only through
  \<^verbatim>\<open>find_all('table')\<close>, \<^verbatim>\<open>find_all('tr')\<close> on each table,
  \<^verbatim>\<open>find_all(['td', 'th'])\<close> on each row and \<^verbatim>\<open>get_text(strip=True)\<close> on each
  cell, so a parsed page is the list of its tables, a table the list of its rows, and a
  row the list of its cells' stripped texts. The function from markup to that structure
  is a parameter \<open>soup\<close> of the parser. Each list is taken as \<^verbatim>\<open>find_all\<close>
  returns it: the search covers all descendants, so a row of a table nested in another
  is listed under both, and the first row of a table is the first element of the list
  returned for that table.
\<close>

type_synonym row = "string list"
type_synonym table = "row list"
type_synonym page = "table list"

text \<open>
  The weight expression
  \<^verbatim>\<open>float(t.replace('%', '').replace(',', '')) if t else 0\<close>
  where \<^verbatim>\<open>t\<close> is the stripped text of the last cell.
\<close>

definition weight_of :: "string \<Rightarrow> py_error + py_num" where
  "weight_of t =
     (if t \<noteq> [] then
        (case py_float_of_str (remove_char (CHR '','') (remove_char (CHR ''%'') t)) of
           Inl e \<Rightarrow> Inl e
         | Inr x \<Rightarrow> Inr (PyFloat x))
      else Inr (PyInt 0))"

text \<open>
  The loop state: the list \<^verbatim>\<open>holdings\<close> built so far, and how many times
  \<^verbatim>\<open>date.today()\<close> has been read during the call. The clock is a function
  \<open>today\<close> giving the date returned by each successive reading; the keyword arguments
  of \<^verbatim>\<open>Holding(...)\<close> are evaluated in order, so both dates are read before the
  weight is converted.
\<close>

record parse_state =
  holdings :: "Holding list"
  ticks :: nat

definition parse_row :: "(nat \<Rightarrow> date) \<Rightarrow> string \<Rightarrow> parse_state \<Rightarrow> row \<Rightarrow> parse_state" where
  "parse_row today esym st cols =
     (if 4 \<le> length cols then
        (let d1 = today (ticks st);
             d2 = today (ticks st + 1);
             st' = st\<lparr>ticks := ticks st + 2\<rparr>
         in case weight_of (last cols) of
              Inl e \<Rightarrow> st'
            | Inr w \<Rightarrow>
                st'\<lparr>holdings := holdings st @
                  [\<lparr>etf_symbol = esym,
                    trade_date = d1,
                    holding_date = d2,
                    rank = length (holdings st) + 1,
                    isin = None,
                    issuer_name = cols ! 0,
                    security_name = (if 1 < length cols then cols ! 1 else []),
                    security_type = [],
                    shares_held = PyInt 0,
                    market_value_twd = PyInt 0,
                    weight_pct = w,
                    source_url = []\<rparr>]\<rparr>)
      else st)"

definition parse_table :: "(nat \<Rightarrow> date) \<Rightarrow> string \<Rightarrow> parse_state \<Rightarrow> table \<Rightarrow> parse_state" where
  "parse_table today esym st rows = foldl (parse_row today esym) st (drop 1 rows)"

definition parse_tables :: "(nat \<Rightarrow> date) \<Rightarrow> string \<Rightarrow> page \<Rightarrow> parse_state" where
  "parse_tables today esym tables =
     foldl (parse_table today esym) \<lparr>holdings = [], ticks = 0\<rparr> tables"

definition parse_holdings ::
  "(string \<Rightarrow> page) \<Rightarrow> (nat \<Rightarrow> date) \<Rightarrow> string \<Rightarrow> string \<Rightarrow> Holding list" where
  "parse_holdings soup today html esym = holdings (parse_tables today esym (soup html))"

section \<open>Fetch clients\<close>

text \<open>
  Every call that leaves the process is recorded as an event, so that statements about
  which calls a run makes, and in which order, can be read off the trace it returns.
\<close>

datatype event =
    ZytePost string
  | DirectGet string
  | DbConnect
  | DbInsert Holding
  | DbCommit
  | DbClose

text \<open>
  What one HTTP exchange does, as the client code observes it: it raises (connection
  error, timeout, a reply that cannot be decoded), or it completes with a status code
  and a body. For the rendering service the body is the page obtained by decoding the
  reply's \<^verbatim>\<open>httpResponseBody\<close> field, \<open>None\<close> when the reply has no such field
  or an empty one; for a direct request it is the response text.
\<close>

datatype http_outcome = Raised | Replied nat "string option"

text \<open>
  The outside world as one fetch task observes it: the outcome of a request for a given
  target URL through either client, and the dates that successive readings of the clock
  return while the task parses.
\<close>

record task_env =
  zyte_reply :: "string \<Rightarrow> http_outcome"
  direct_reply :: "string \<Rightarrow> http_outcome"
  clock :: "nat \<Rightarrow> date"

record ZyteClient =
  api_key :: string
  api_url :: string

record DirectClient =
  headers :: "(string \<times> string) list"

text \<open>\<^verbatim>\<open>os.getenv(key, default)\<close> over the process environment.\<close>

definition os_getenv :: "(string \<rightharpoonup> string) \<Rightarrow> string \<Rightarrow> string \<Rightarrow> string" where
  "os_getenv environ key dflt = (case environ key of Some v \<Rightarrow> v | None \<Rightarrow> dflt)"

definition ZyteClient_init :: "(string \<rightharpoonup> string) \<Rightarrow> string option \<Rightarrow> ZyteClient" where
  "ZyteClient_init environ key =
     \<lparr>api_key =
        (case key of
           Some k \<Rightarrow> if k \<noteq> [] then k else os_getenv environ ''ZYTE_API_KEY'' []
         | None \<Rightarrow> os_getenv environ ''ZYTE_API_KEY'' []),
      api_url = ''https://api.zyte.com/v1/extract''\<rparr>"

definition ZyteClient_fetch :: "ZyteClient \<Rightarrow> task_env \<Rightarrow> string \<Rightarrow> string option \<times> event list" where
  "ZyteClient_fetch z env u =
     (if api_key z = [] then (None, [])
      else
        ((case zyte_reply env u of
            Raised \<Rightarrow> None
          | Replied code body \<Rightarrow> if code \<noteq> 200 then None else body),
         [ZytePost u]))"

definition DirectClient_init :: DirectClient where
  "DirectClient_init =
     \<lparr>headers =
        [(''User-Agent'',
          ''Mozilla/5.0 (Macintosh; Intel Mac OS X 10_15_7) AppleWebKit/537.36''),
         (''Accept'', ''text/html,application/xhtml+xml,application/xml;q=0.9,*/*;q=0.8''),
         (''Accept-Language'', ''en-US,en;q=0.5'')]\<rparr>"

definition DirectClient_fetch :: "DirectClient \<Rightarrow> task_env \<Rightarrow> string \<Rightarrow> string option \<times> event list" where
  "DirectClient_fetch d env u =
     ((case direct_reply env u of
         Raised \<Rightarrow> None
       | Replied code body \<Rightarrow> if code = 200 then body else None),
      [DirectGet u])"

section \<open>The scraper\<close>

text \<open>
  Of the scraper object, the configured funds and the two clients. Loading the
  configuration file and initialising the schema and the fund master table happen in
  the constructor, before any run, and are not modelled.
\<close>

record ETFScraper =
  etfs :: "ETFConfig list"
  zyte :: ZyteClient
  direct :: DirectClient

definition ETFScraper_init :: "(string \<rightharpoonup> string) \<Rightarrow> ETFConfig list \<Rightarrow> ETFScraper" where
  "ETFScraper_init environ funds =
     \<lparr>etfs = funds,
      zyte = ZyteClient_init environ (Some (os_getenv environ ''ZYTE_API_KEY'' [])),
      direct = DirectClient_init\<rparr>"

text \<open>\<^verbatim>\<open>if html:\<close> is false for \<^verbatim>\<open>None\<close> and for the empty string.\<close>

definition fetch_etf ::
  "(string \<Rightarrow> page) \<Rightarrow> ETFScraper \<Rightarrow> task_env \<Rightarrow> ETFConfig \<Rightarrow> Holding list \<times> event list" where
  "fetch_etf soup s env etf =
     (let (html, evs) = ZyteClient_fetch (zyte s) env (url etf) in
      ((case html of
          Some h \<Rightarrow> if h \<noteq> [] then parse_holdings soup (clock env) h (symbol etf) else []
        | None \<Rightarrow> []),
       evs))"

text \<open>
  A Python dictionary keeps its keys in insertion order; storing under a key that is
  present replaces the value where it stands. \<open>dict\<close> builds a dictionary from a list
  of pairs as \<^verbatim>\<open>dict(zip(...))\<close> does.
\<close>

primrec dict_set :: "'k \<Rightarrow> 'v \<Rightarrow> ('k \<times> 'v) list \<Rightarrow> ('k \<times> 'v) list" where
  "dict_set k v [] = [(k, v)]"
| "dict_set k v (p # ps) = (if fst p = k then (k, v) # ps else p # dict_set k v ps)"

definition dict :: "('k \<times> 'v) list \<Rightarrow> ('k \<times> 'v) list" where
  "dict ps = foldl (\<lambda>d (k, v). dict_set k v d) [] ps"

text \<open>
  \<^verbatim>\<open>asyncio.gather\<close> returns the results of all tasks, in task order, once every
  task has finished. The tasks are modelled by what each one computes from the
  environment it observes (\<open>envs i\<close> for the task of the \<open>i\<close>-th fund); how the event
  loop interleaves them is not modelled, and the events of the tasks are listed in task
  order.
\<close>

definition fetch_all ::
  "(string \<Rightarrow> page) \<Rightarrow> ETFScraper \<Rightarrow> (nat \<Rightarrow> task_env) \<Rightarrow>
     (string \<times> Holding list) list \<times> event list" where
  "fetch_all soup s envs =
     (let results = map (\<lambda>(i, etf). fetch_etf soup s (envs i) etf) (enumerate 0 (etfs s)) in
      (dict (zip (map symbol (etfs s)) (map fst results)), concat (map snd results)))"

section \<open>Persistence\<close>

text \<open>
  The schema file is not among the sources. The stored tables the pipeline and its
  readers name are the holdings table and the scrape log, whose columns are those
  selected by \<^verbatim>\<open>query_scrape_log\<close>.
\<close>

datatype ScrapeLogEntry =
  ScrapeLogEntry (scrape_date: date) (log_etf_symbol: string) (status: string)
    (holdings_count: nat) (error_message: "string option")

record database =
  etf_holdings :: "Holding list"
  etf_scrape_log :: "ScrapeLogEntry list"

text \<open>
  The database server as the scraper observes it: whether a connection can be opened,
  whether it accepts the insertion of a row given the rows the transaction sees (those
  stored and those it has inserted so far), and whether the final commit goes through.
  The connection is opened by \<^verbatim>\<open>psycopg2.connect\<close> with its default settings,
  so the first statement opens a transaction whose rows are stored only by a successful
  \<^verbatim>\<open>commit\<close>; a connection dropped without one stores nothing. Each of the three
  calls raises when the server refuses, and \<^verbatim>\<open>save_holdings\<close> catches nothing.
\<close>

record db_server =
  can_connect :: bool
  accepts :: "Holding list \<Rightarrow> Holding \<Rightarrow> bool"
  commit_ok :: bool

record txn =
  pending :: "Holding list"
  total :: nat
  trace :: "event list"

fun insert_rows :: "db_server \<Rightarrow> Holding list \<Rightarrow> txn \<Rightarrow> Holding list \<Rightarrow> txn \<times> py_error option" where
  "insert_rows srv stored t [] = (t, None)"
| "insert_rows srv stored t (h # hs) =
     (if accepts srv (stored @ pending t) h
      then insert_rows srv stored
             (t\<lparr>pending := pending t @ [h], total := total t + 1,
                trace := trace t @ [DbInsert h]\<rparr>) hs
      else (t\<lparr>trace := trace t @ [DbInsert h]\<rparr>, Some DatabaseError))"

fun insert_items ::
  "db_server \<Rightarrow> Holding list \<Rightarrow> txn \<Rightarrow> (string \<times> Holding list) list \<Rightarrow> txn \<times> py_error option" where
  "insert_items srv stored t [] = (t, None)"
| "insert_items srv stored t (item # items) =
     (case insert_rows srv stored t (snd item) of
        (t', Some e) \<Rightarrow> (t', Some e)
      | (t', None) \<Rightarrow> insert_items srv stored t' items)"

definition save_holdings ::
  "db_server \<Rightarrow> (string \<times> Holding list) list \<Rightarrow> database \<Rightarrow>
     (py_error + unit) \<times> database \<times> event list" where
  "save_holdings srv holdings_dict db =
     (if \<not> can_connect srv then (Inl DatabaseError, db, [DbConnect])
      else
        (case insert_items srv (etf_holdings db)
                \<lparr>pending = [], total = 0, trace = [DbConnect]\<rparr> holdings_dict of
           (t, Some e) \<Rightarrow> (Inl e, db, trace t)
         | (t, None) \<Rightarrow>
             if commit_ok srv
             then (Inr (), db\<lparr>etf_holdings := etf_holdings db @ pending t\<rparr>,
                   trace t @ [DbCommit, DbClose])
             else (Inl DatabaseError, db, trace t @ [DbCommit])))"

definition run ::
  "(string \<Rightarrow> page) \<Rightarrow> ETFScraper \<Rightarrow> (nat \<Rightarrow> task_env) \<Rightarrow> db_server \<Rightarrow> database \<Rightarrow>
     (py_error + unit) \<times> database \<times> event list" where
  "run soup s envs srv db =
     (let (holdings_dict, evs) = fetch_all soup s envs;
          (r, db', evs') = save_holdings srv holdings_dict db
      in (r, db', evs @ evs'))"

section \<open>A sample configuration\<close>

text \<open>
  Two funds, a page with a header row and two data rows, an environment in which the
  rendering service answers with a page and one in which it answers with status 503,
  and a database server that accepts every row, or every row but those of rank 2. They
  serve as concrete inputs below.
\<close>

definition sample_funds :: "ETFConfig list" where
  "sample_funds =
     [\<lparr>symbol = ''0050'', name = ''Fund A'', provider = ''P'', type = ''equity'',
       url = ''https://example.com/0050''\<rparr>,
      \<lparr>symbol = ''0056'', name = ''Fund B'', provider = ''P'', type = ''equity'',
       url = ''https://example.com/0056''\<rparr>]"

definition sample_scraper :: ETFScraper where
  "sample_scraper = ETFScraper_init [''ZYTE_API_KEY'' \<mapsto> ''secret''] sample_funds"

definition sample_soup :: "string \<Rightarrow> page" where
  "sample_soup html =
     [[[''Issuer'', ''Security'', ''Shares'', ''Weight''],
       [''Co A'', ''Sec A'', ''100'', ''1.23%''],
       [''Co B'', ''Sec B'', ''50'', ''0.50%'']]]"

definition env_up :: task_env where
  "env_up =
     \<lparr>zyte_reply = (\<lambda>u. Replied 200 (Some ''<html>'')),
      direct_reply = (\<lambda>u. Replied 200 (Some ''<html>'')),
      clock = (\<lambda>k. Date 2024 1 2)\<rparr>"

definition env_down :: task_env where
  "env_down =
     \<lparr>zyte_reply = (\<lambda>u. Replied 503 None),
      direct_reply = (\<lambda>u. Replied 200 (Some ''<html>'')),
      clock = (\<lambda>k. Date 2024 1 2)\<rparr>"

definition server_ok :: db_server where
  "server_ok = \<lparr>can_connect = True, accepts = (\<lambda>visible h. True), commit_ok = True\<rparr>"

definition server_picky :: db_server where
  "server_picky =
     \<lparr>can_connect = True, accepts = (\<lambda>visible h. rank h \<noteq> 2), commit_ok = True\<rparr>"

definition empty_db :: database where
  "empty_db = \<lparr>etf_holdings = [], etf_scrape_log = []\<rparr>"

section \<open>Properties of the parser\<close>

lemma foldl_invariant:
  assumes "P a" and "\<And>a x. P a \<Longrightarrow> P (f a x)"
  shows "P (foldl f a xs)"
  using assms(1) by (induction xs arbitrary: a) (simp_all add: assms(2))

lemma parse_row_short: "length cols < 4 \<Longrightarrow> parse_row today esym st cols = st"
  by (simp add: parse_row_def)

subsection \<open>Ranks\<close>

lemma parse_row_rank:
  assumes "map rank (holdings st) = [1..<Suc (length (holdings st))]"
  shows "map rank (holdings (parse_row today esym st cols)) =
         [1..<Suc (length (holdings (parse_row today esym st cols)))]"
proof -
  have "[1..<Suc (Suc n)] = [1..<Suc n] @ [Suc n]" for n
    by (rule upt_Suc_append) simp
  with assms show ?thesis
    by (simp add: parse_row_def Let_def del: upt_Suc split: sum.splits)
qed

lemma parse_table_rank:
  assumes "map rank (holdings st) = [1..<Suc (length (holdings st))]"
  shows "map rank (holdings (parse_table today esym st rows)) =
         [1..<Suc (length (holdings (parse_table today esym st rows)))]"
  unfolding parse_table_def
  by (rule foldl_invariant
        [where P = "\<lambda>st. map rank (holdings st) = [1..<Suc (length (holdings st))]"])
     (simp_all add: assms parse_row_rank)

text \<open>
  Claim C5. For every page and fund symbol, the ranks of the holdings returned by one
  call of the parser are, in list order, exactly \<open>1, 2, ..., n\<close> where \<open>n\<close> is the
  number of holdings returned. The count runs over the whole page: the loop over the
  tables shares one list, so the numbering continues from one table into the next.
\<close>

theorem parse_holdings_ranks:
  "map rank (parse_holdings soup today html esym) =
   [1..<Suc (length (parse_holdings soup today html esym))]"
  unfolding parse_holdings_def parse_tables_def
  by (rule foldl_invariant
        [where P = "\<lambda>st. map rank (holdings st) = [1..<Suc (length (holdings st))]"])
     (simp_all add: parse_table_rank)

text \<open>
  An instance with two tables: the first yields two holdings (one of its rows has an
  unreadable weight), the second yields the third, numbered 3.
\<close>

theorem parse_holdings_ranks_witness:
  "map rank
     (parse_holdings
        (\<lambda>_. [[[], [''a'', ''b'', ''c'', ''1''], [''a'', ''b'', ''c'', ''x''],
                [''a'', ''b'', ''c'', []]],
               [[''h''], [''a'', ''b'', ''c'', ''d'', ''7.5%'']]])
        (\<lambda>_. Date 2024 1 2) [] ''XYZ'') = [1, 2, 3]"
proof -
  have len: "length
     (parse_holdings
        (\<lambda>_. [[[], [''a'', ''b'', ''c'', ''1''], [''a'', ''b'', ''c'', ''x''],
                [''a'', ''b'', ''c'', []]],
               [[''h''], [''a'', ''b'', ''c'', ''d'', ''7.5%'']]])
        (\<lambda>_. Date 2024 1 2) [] ''XYZ'') = 3"
    by code_simp
  have "[1..<Suc 3] = [1, 2, 3]"
    by code_simp
  with len show ?thesis
    using parse_holdings_ranks
      [of "\<lambda>_. [[[], [''a'', ''b'', ''c'', ''1''], [''a'', ''b'', ''c'', ''x''],
                   [''a'', ''b'', ''c'', []]],
                  [[''h''], [''a'', ''b'', ''c'', ''d'', ''7.5%'']]]"
          "\<lambda>_. Date 2024 1 2" "[]" "''XYZ''"]
    by simp
qed

subsection \<open>Fields the parser never reads from the page\<close>





subsection \<open>Rows that yield nothing\<close>

lemma foldl_invariant_set:
  assumes "P a" and "\<And>a x. x \<in> set xs \<Longrightarrow> P a \<Longrightarrow> P (f a x)"
  shows "P (foldl f a xs)"
  using assms by (induction xs arbitrary: a) simp_all

lemma foldl_parse_row_filter:
  "foldl (parse_row today esym) st (filter (\<lambda>r. 4 \<le> length r) rows) =
   foldl (parse_row today esym) st rows"
  by (induction rows arbitrary: st) (simp_all add: parse_row_short)

lemma parse_table_erase:
  "parse_table today esym st ([] # filter (\<lambda>r. 4 \<le> length r) (drop (Suc 0) rows)) =
   parse_table today esym st rows"
  by (simp add: parse_table_def foldl_parse_row_filter)

lemma parse_tables_erase:
  "parse_tables today esym
     (map (\<lambda>t. [] # filter (\<lambda>r. 4 \<le> length r) (drop (Suc 0) t)) tables) =
   parse_tables today esym tables"
  unfolding parse_tables_def
  by (induction tables rule: rev_induct) (simp_all add: parse_table_erase)

lemma parse_row_length:
  "length (holdings (parse_row today esym st cols)) \<le>
   length (holdings st) + (if 4 \<le> length cols then 1 else 0)"
  by (simp add: parse_row_def Let_def split: sum.splits)

lemma foldl_parse_row_length:
  "length (holdings (foldl (parse_row today esym) st rows)) \<le>
   length (holdings st) + length (filter (\<lambda>r. 4 \<le> length r) rows)"
proof (induction rows arbitrary: st)
  case Nil
  show ?case by simp
next
  case (Cons r rows)
  show ?case
    using Cons.IH [of "parse_row today esym st r"] parse_row_length [of today esym st r]
    by (simp split: if_splits)
qed

lemma foldl_parse_table_length:
  "length (holdings (foldl (parse_table today esym) st tables)) \<le>
   length (holdings st) +
   length (concat (map (\<lambda>t. filter (\<lambda>r. 4 \<le> length r) (drop 1 t)) tables))"
proof (induction tables arbitrary: st)
  case Nil
  show ?case by simp
next
  case (Cons t tables)
  show ?case
    using Cons.IH [of "parse_table today esym st t"]
      foldl_parse_row_length [of today esym st "drop 1 t"]
    by (simp add: parse_table_def)
qed

lemma parse_row_origin:
  assumes "\<forall>h \<in> set (holdings st). Q h"
    and "4 \<le> length cols \<Longrightarrow>
         (\<And>h. issuer_name h = cols ! 0 \<Longrightarrow> security_name h = cols ! 1 \<Longrightarrow> Q h)"
  shows "\<forall>h \<in> set (holdings (parse_row today esym st cols)). Q h"
  using assms by (auto simp add: parse_row_def Let_def split: sum.splits)

lemma parse_tables_origin:
  "\<forall>h \<in> set (holdings (parse_tables today esym tables)).
     \<exists>t \<in> set tables. \<exists>r \<in> set (drop 1 t).
       4 \<le> length r \<and> issuer_name h = r ! 0 \<and> security_name h = r ! 1"
  unfolding parse_tables_def parse_table_def
proof (rule foldl_invariant_set, simp, rule foldl_invariant_set, assumption,
    rule parse_row_origin, assumption)
  fix t r h
  assume "t \<in> set tables" "r \<in> set (drop 1 t)" "4 \<le> length r"
    "issuer_name h = r ! 0" "security_name h = r ! 1"
  then show "\<exists>t \<in> set tables. \<exists>r \<in> set (drop 1 t).
      4 \<le> length r \<and> issuer_name h = r ! 0 \<and> security_name h = r ! 1"
    by blast
qed

text \<open>
  Claim C6, as stated, fails on a document with a nested table. Take an outer table
  whose first row has the four header cells \<^verbatim>\<open>H1\<close> to \<^verbatim>\<open>H4\<close> and whose second
  row has one cell, and in that cell an inner table with the single row
  \<^verbatim>\<open>In H\<close>, \<^verbatim>\<open>In S\<close>, \<^verbatim>\<open>1\<close>, \<^verbatim>\<open>2%\<close>. Since \<^verbatim>\<open>find_all\<close> searches
  all descendants, the rows found under the outer table are its two rows and the inner
  row, and the cells found under its second row are its own cell (whose stripped text
  is the concatenation \<^verbatim>\<open>In HIn S12%\<close>) and the four inner cells. The inner row is
  the first row of the inner table, and it yields the holding of rank 2 when the outer
  table is scanned; the outer table's second row, which has a single cell of its own,
  yields the holding of rank 1.
\<close>

theorem nested_first_row_counterexample:
  "hd ([[[''H1'', ''H2'', ''H3'', ''H4''],
         [''In HIn S12%'', ''In H'', ''In S'', ''1'', ''2%''],
         [''In H'', ''In S'', ''1'', ''2%'']],
        [[''In H'', ''In S'', ''1'', ''2%'']]] ! 1) = [''In H'', ''In S'', ''1'', ''2%''] \<and>
   map (\<lambda>h. (rank h, issuer_name h, security_name h, weight_pct h))
     (parse_holdings
        (\<lambda>_. [[[''H1'', ''H2'', ''H3'', ''H4''],
                [''In HIn S12%'', ''In H'', ''In S'', ''1'', ''2%''],
                [''In H'', ''In S'', ''1'', ''2%'']],
               [[''In H'', ''In S'', ''1'', ''2%'']]])
        (\<lambda>_. Date 2024 1 2) [] ''XYZ'') =
   [(1, ''In HIn S12%'', ''In H'', PyFloat (Finite 2)),
    (2, ''In H'', ''In S'', PyFloat (Finite 2))]"
  by code_simp

text \<open>
  Claim C6, amended. Take the rows of each table and the cells of each row as
  \<^verbatim>\<open>find_all\<close> lists them, descendants of nested tables included. For every
  page, a listed row with fewer than 4 listed cells yields no holding, and the first
  listed row of a table yields no holding when that table is scanned. Three statements
  say so: the parser returns the same list when every table's first listed row is
  replaced by an empty row and every later listed row with fewer than 4 cells is
  deleted; it returns at most one holding for each row listed after the first of some
  table with at least 4 cells; and every holding it returns takes its issuer and
  security names from the first two cells of such a row. Nothing is said of a row seen
  as a document element: the first row of a nested table is also listed after the
  first row of the enclosing table, and can yield a holding there.
\<close>

theorem short_and_header_rows_yield_nothing:
  "parse_holdings soup today html esym =
     parse_holdings (\<lambda>_. map (\<lambda>t. [] # filter (\<lambda>r. 4 \<le> length r) (drop 1 t)) (soup html))
       today html esym \<and>
   length (parse_holdings soup today html esym) \<le>
     length (concat (map (\<lambda>t. filter (\<lambda>r. 4 \<le> length r) (drop 1 t)) (soup html))) \<and>
   (\<forall>h \<in> set (parse_holdings soup today html esym).
     \<exists>t \<in> set (soup html). \<exists>r \<in> set (drop 1 t).
       4 \<le> length r \<and> issuer_name h = r ! 0 \<and> security_name h = r ! 1)"
proof (intro conjI)
  show "parse_holdings soup today html esym =
     parse_holdings (\<lambda>_. map (\<lambda>t. [] # filter (\<lambda>r. 4 \<le> length r) (drop 1 t)) (soup html))
       today html esym"
    by (simp add: parse_holdings_def parse_tables_erase)
  show "length (parse_holdings soup today html esym) \<le>
     length (concat (map (\<lambda>t. filter (\<lambda>r. 4 \<le> length r) (drop 1 t)) (soup html)))"
    using foldl_parse_table_length [of today esym "\<lparr>holdings = [], ticks = 0\<rparr>" "soup html"]
    by (simp add: parse_holdings_def parse_tables_def)
  show "\<forall>h \<in> set (parse_holdings soup today html esym).
     \<exists>t \<in> set (soup html). \<exists>r \<in> set (drop 1 t).
       4 \<le> length r \<and> issuer_name h = r ! 0 \<and> security_name h = r ! 1"
    using parse_tables_origin [of today esym "soup html"]
    by (simp add: parse_holdings_def)
qed

text \<open>
  An instance: a table with a four-cell header, a two-cell row and one full row,
  followed by a table that has only a four-cell first row. One holding is returned,
  that of the full row.
\<close>

theorem short_and_header_rows_yield_nothing_witness:
  "length (parse_holdings
      (\<lambda>_. [[[''Issuer'', ''Security'', ''Shares'', ''Weight''], [''x'', ''y''],
              [''Co A'', ''Sec A'', ''100'', ''1.23%'']],
             [[''Co Z'', ''Sec Z'', ''7'', ''9%'']]])
      (\<lambda>_. Date 2024 1 2) [] ''XYZ'') \<le> 1 \<and>
   map issuer_name (parse_holdings
      (\<lambda>_. [[[''Issuer'', ''Security'', ''Shares'', ''Weight''], [''x'', ''y''],
              [''Co A'', ''Sec A'', ''100'', ''1.23%'']],
             [[''Co Z'', ''Sec Z'', ''7'', ''9%'']]])
      (\<lambda>_. Date 2024 1 2) [] ''XYZ'') = [''Co A'']"
proof -
  note inst = short_and_header_rows_yield_nothing
      [of "(\<lambda>_. [[[''Issuer'', ''Security'', ''Shares'', ''Weight''], [''x'', ''y''],
              [''Co A'', ''Sec A'', ''100'', ''1.23%'']],
             [[''Co Z'', ''Sec Z'', ''7'', ''9%'']]])"
          "\<lambda>_. Date 2024 1 2" "[]" "''XYZ''"]
  from inst [THEN conjunct2, THEN conjunct1]
  have le: "length (parse_holdings
      (\<lambda>_. [[[''Issuer'', ''Security'', ''Shares'', ''Weight''], [''x'', ''y''],
              [''Co A'', ''Sec A'', ''100'', ''1.23%'']],
             [[''Co Z'', ''Sec Z'', ''7'', ''9%'']]])
      (\<lambda>_. Date 2024 1 2) [] ''XYZ'') \<le> 1"
    by simp
  have "map issuer_name (parse_holdings
      (\<lambda>_. [[[''Issuer'', ''Security'', ''Shares'', ''Weight''], [''x'', ''y''],
              [''Co A'', ''Sec A'', ''100'', ''1.23%'']],
             [[''Co Z'', ''Sec Z'', ''7'', ''9%'']]])
      (\<lambda>_. Date 2024 1 2) [] ''XYZ'') = [''Co A'']"
    by code_simp
  with le show ?thesis
    by (rule conjI)
qed

subsection \<open>A weight that cannot be read\<close>





subsection \<open>The two-row example\<close>

lemma weight_of_1_23: "weight_of ''1.23%'' = Inr (PyFloat (Finite 1.23))"
  by (simp add: weight_of_def remove_char_def py_float_of_str_def strip_def is_space_def
      is_digit_def parse_decimal_def parse_sign_def parse_exponent_def digits_value_def
      digit_value_def scale10_def)

lemma weight_of_0_50: "weight_of ''0.50%'' = Inr (PyFloat (Finite 0.5))"
  by (simp add: weight_of_def remove_char_def py_float_of_str_def strip_def is_space_def
      is_digit_def parse_decimal_def parse_sign_def parse_exponent_def digits_value_def
      digit_value_def scale10_def)

text \<open>
  Claim C3, as stated, fails: when the table's rows are exactly the two listed, the
  first of them is the row the loop skips (\<^verbatim>\<open>rows[1:]\<close>), and the parser returns
  one holding, with rank 1, issuer \<^verbatim>\<open>Co B\<close> and weight 0.50.
\<close>

theorem two_rows_counterexample:
  "map (\<lambda>h. (rank h, issuer_name h, weight_pct h))
     (parse_holdings
        (\<lambda>_. [[[''Co A'', ''Sec A'', ''100'', ''1.23%''],
                [''Co B'', ''Sec B'', ''50'', ''0.50%'']]])
        (\<lambda>_. Date 2024 1 2) [] ''XYZ'') =
   [(1, ''Co B'', PyFloat (Finite 0.5))]"
  by code_simp

text \<open>
  Claim C3, amended. Parsing a page with exactly one table whose rows are a first
  (header) row followed by the two listed rows, for the fund symbol \<^verbatim>\<open>XYZ\<close>,
  returns exactly two holdings: the first with rank 1, issuer \<^verbatim>\<open>Co A\<close> and weight
  1.23, the second with rank 2, issuer \<^verbatim>\<open>Co B\<close> and weight 0.50.
\<close>

theorem two_rows_after_header:
  assumes "soup html =
     [[hdr, [''Co A'', ''Sec A'', ''100'', ''1.23%''],
       [''Co B'', ''Sec B'', ''50'', ''0.50%'']]]"
  shows "parse_holdings soup today html ''XYZ'' =
     [\<lparr>etf_symbol = ''XYZ'', trade_date = today 0, holding_date = today 1, rank = 1,
       isin = None, issuer_name = ''Co A'', security_name = ''Sec A'', security_type = [],
       shares_held = PyInt 0, market_value_twd = PyInt 0,
       weight_pct = PyFloat (Finite 1.23), source_url = []\<rparr>,
      \<lparr>etf_symbol = ''XYZ'', trade_date = today 2, holding_date = today 3, rank = 2,
       isin = None, issuer_name = ''Co B'', security_name = ''Sec B'', security_type = [],
       shares_held = PyInt 0, market_value_twd = PyInt 0,
       weight_pct = PyFloat (Finite 0.5), source_url = []\<rparr>]"
  using assms
  by (simp add: parse_holdings_def parse_tables_def parse_table_def parse_row_def
      weight_of_1_23 weight_of_0_50 Let_def numeral_2_eq_2 numeral_3_eq_3)

theorem two_rows_after_header_witness:
  "map (\<lambda>h. (rank h, issuer_name h, weight_pct h))
     (parse_holdings
        (\<lambda>_. [[[''Issuer'', ''Security'', ''Shares'', ''Weight''],
                [''Co A'', ''Sec A'', ''100'', ''1.23%''],
                [''Co B'', ''Sec B'', ''50'', ''0.50%'']]])
        (\<lambda>_. Date 2024 1 2) [] ''XYZ'') =
   [(1, ''Co A'', PyFloat (Finite 1.23)), (2, ''Co B'', PyFloat (Finite 0.5))]"
  using two_rows_after_header
    [of "\<lambda>_. [[[''Issuer'', ''Security'', ''Shares'', ''Weight''],
                [''Co A'', ''Sec A'', ''100'', ''1.23%''],
                [''Co B'', ''Sec B'', ''50'', ''0.50%'']]]"
        "[]" "[''Issuer'', ''Security'', ''Shares'', ''Weight'']" "\<lambda>_. Date 2024 1 2"]
  by simp

section \<open>Properties of the pipeline\<close>

subsection \<open>Fetching\<close>

lemma parse_row_symbol:
  assumes "\<forall>h \<in> set (holdings st). etf_symbol h = esym"
  shows "\<forall>h \<in> set (holdings (parse_row today esym st cols)). etf_symbol h = esym"
  using assms by (auto simp add: parse_row_def Let_def split: sum.splits)

lemma parse_holdings_symbol:
  "\<forall>h \<in> set (parse_holdings soup today html esym). etf_symbol h = esym"
  unfolding parse_holdings_def parse_tables_def parse_table_def
  by (rule foldl_invariant, simp, rule foldl_invariant, assumption, rule parse_row_symbol)

lemma dict_set_fresh: "k \<notin> fst ` set d \<Longrightarrow> dict_set k v d = d @ [(k, v)]"
  by (induction d) auto

lemma foldl_dict_set_distinct:
  assumes "distinct (map fst ps)" and "fst ` set ps \<inter> fst ` set d = {}"
  shows "foldl (\<lambda>d (k, v). dict_set k v d) d ps = d @ ps"
  using assms
proof (induction ps arbitrary: d)
  case Nil
  show ?case by simp
next
  case (Cons p ps)
  obtain k v where p: "p = (k, v)" by (cases p)
  from Cons.prems have fresh: "k \<notin> fst ` set d" by (auto simp: p)
  have "foldl (\<lambda>d (k, v). dict_set k v d) (d @ [(k, v)]) ps = (d @ [(k, v)]) @ ps"
    using Cons.prems by (intro Cons.IH) (auto simp: p)
  with fresh show ?case by (simp add: p dict_set_fresh)
qed

lemma dict_distinct: "distinct (map fst ps) \<Longrightarrow> dict ps = ps"
  using foldl_dict_set_distinct [of ps "[]"] by (simp add: dict_def)

lemma snd_fetch_etf:
  "snd (fetch_etf soup s env etf) = snd (ZyteClient_fetch (zyte s) env (url etf))"
  by (simp add: fetch_etf_def case_prod_unfold Let_def)

lemma fetch_etf_events: "set (snd (fetch_etf soup s env etf)) \<subseteq> {ZytePost (url etf)}"
  by (simp add: snd_fetch_etf ZyteClient_fetch_def)

lemma fetch_etf_no_content:
  "fst (ZyteClient_fetch (zyte s) env (url etf)) = None \<Longrightarrow> fst (fetch_etf soup s env etf) = []"
  by (simp add: fetch_etf_def case_prod_unfold Let_def)

lemma fetch_etf_symbol:
  "\<forall>h \<in> set (fst (fetch_etf soup s env etf)). etf_symbol h = symbol etf"
  using parse_holdings_symbol
  by (auto simp add: fetch_etf_def case_prod_unfold Let_def split: option.splits)

lemma fetch_all_distinct:
  assumes "distinct (map symbol (etfs s))"
  shows "fst (fetch_all soup s envs) =
         zip (map symbol (etfs s))
           (map (\<lambda>(i, etf). fst (fetch_etf soup s (envs i) etf)) (enumerate 0 (etfs s)))"
  using assms
  by (simp add: fetch_all_def Let_def dict_distinct comp_def case_prod_unfold)

lemma fetch_all_keys:
  assumes "distinct (map symbol (etfs s))"
  shows "map fst (fst (fetch_all soup s envs)) = map symbol (etfs s)"
  by (simp add: fetch_all_distinct [OF assms])

lemma fetch_all_lookup:
  assumes "distinct (map symbol (etfs s))" and "j < length (etfs s)"
  shows "map_of (fst (fetch_all soup s envs)) (symbol (etfs s ! j)) =
         Some (fst (fetch_etf soup s (envs j) (etfs s ! j)))"
proof -
  let ?vs = "map (\<lambda>(i, etf). fst (fetch_etf soup s (envs i) etf)) (enumerate 0 (etfs s))"
  have "map_of (zip (map symbol (etfs s)) ?vs) (map symbol (etfs s) ! j) = Some (?vs ! j)"
    using assms by (intro map_of_zip_nth) simp_all
  with assms show ?thesis
    by (simp add: fetch_all_distinct nth_enumerate_eq)
qed

lemma fetch_all_rows:
  assumes "distinct (map symbol (etfs s))"
  shows "concat (map snd (fst (fetch_all soup s envs))) =
         concat (map (\<lambda>(i, etf). fst (fetch_etf soup s (envs i) etf)) (enumerate 0 (etfs s)))"
  by (simp add: fetch_all_distinct [OF assms])

lemma fetch_all_events:
  "set (snd (fetch_all soup s envs)) \<subseteq> range ZytePost"
  using fetch_etf_events
  by (fastforce simp add: fetch_all_def Let_def)

subsection \<open>Persisting\<close>

lemma insert_rows_ok:
  assumes "insert_rows srv stored t hs = (t', None)"
  shows "pending t' = pending t @ hs \<and> trace t' = trace t @ map DbInsert hs \<and>
         total t' = total t + length hs"
  using assms by (induction hs arbitrary: t) (auto split: if_splits)

lemma insert_rows_trace:
  "\<exists>hs'. trace (fst (insert_rows srv stored t hs)) = trace t @ map DbInsert hs' \<and>
         set hs' \<subseteq> set hs"
proof (induction hs arbitrary: t)
  case Nil
  show ?case by simp
next
  case (Cons h hs)
  show ?case
  proof (cases "accepts srv (stored @ pending t) h")
    case True
    from Cons.IH [of "t\<lparr>pending := pending t @ [h], total := total t + 1,
                trace := trace t @ [DbInsert h]\<rparr>"]
    obtain hs' where "trace (fst (insert_rows srv stored
        (t\<lparr>pending := pending t @ [h], total := total t + 1,
           trace := trace t @ [DbInsert h]\<rparr>) hs)) =
        (trace t @ [DbInsert h]) @ map DbInsert hs'" and "set hs' \<subseteq> set hs"
      by auto
    with True show ?thesis
      by (intro exI [of _ "h # hs'"]) auto
  next
    case False
    then show ?thesis
      by (intro exI [of _ "[h]"]) simp
  qed
qed

lemma insert_items_ok:
  assumes "insert_items srv stored t items = (t', None)"
  shows "pending t' = pending t @ concat (map snd items) \<and>
         trace t' = trace t @ map DbInsert (concat (map snd items)) \<and>
         total t' = total t + length (concat (map snd items))"
  using assms
proof (induction items arbitrary: t)
  case Nil
  then show ?case by simp
next
  case (Cons item items)
  obtain t1 e1 where r: "insert_rows srv stored t (snd item) = (t1, e1)"
    by (cases "insert_rows srv stored t (snd item)")
  with Cons.prems have e1: "e1 = None" and rest: "insert_items srv stored t1 items = (t', None)"
    by (auto split: option.splits)
  from insert_rows_ok [OF r [unfolded e1]] Cons.IH [OF rest]
  show ?case by simp
qed

lemma insert_items_trace:
  "\<exists>hs'. trace (fst (insert_items srv stored t items)) = trace t @ map DbInsert hs' \<and>
         set hs' \<subseteq> set (concat (map snd items))"
proof (induction items arbitrary: t)
  case Nil
  show ?case by simp
next
  case (Cons item items)
  obtain t1 e1 where r: "insert_rows srv stored t (snd item) = (t1, e1)"
    by (cases "insert_rows srv stored t (snd item)")
  from insert_rows_trace [of srv stored t "snd item"] r
  obtain hs1 where h1: "trace t1 = trace t @ map DbInsert hs1" "set hs1 \<subseteq> set (snd item)"
    by auto
  show ?case
  proof (cases e1)
    case None
    from Cons.IH [of t1]
    obtain hs2 where "trace (fst (insert_items srv stored t1 items)) =
        trace t1 @ map DbInsert hs2" and "set hs2 \<subseteq> set (concat (map snd items))"
      by auto
    with h1 r None show ?thesis
      by (intro exI [of _ "hs1 @ hs2"]) auto
  next
    case (Some e)
    with h1 r show ?thesis
      by (intro exI [of _ hs1]) auto
  qed
qed

lemma no_commit_among_inserts: "filter (\<lambda>e. e = DbCommit) (map DbInsert hs) = []"
  by (induction hs) simp_all

text \<open>The three shapes a trace of \<open>save_holdings\<close> can have.\<close>

lemma save_holdings_events:
  "(\<exists>hs'. snd (snd (save_holdings srv d db)) = DbConnect # map DbInsert hs' \<and>
          set hs' \<subseteq> set (concat (map snd d))) \<or>
   snd (snd (save_holdings srv d db)) =
     DbConnect # map DbInsert (concat (map snd d)) @ [DbCommit] \<or>
   snd (snd (save_holdings srv d db)) =
     DbConnect # map DbInsert (concat (map snd d)) @ [DbCommit, DbClose]"
proof (cases "can_connect srv")
  case False
  then have "snd (snd (save_holdings srv d db)) = DbConnect # map DbInsert []"
    by (simp add: save_holdings_def)
  then show ?thesis
    by (intro disjI1 exI [of _ "[]"]) simp
next
  case True
  obtain t e where r: "insert_items srv (etf_holdings db)
      \<lparr>pending = [], total = 0, trace = [DbConnect]\<rparr> d = (t, e)"
    by (cases "insert_items srv (etf_holdings db)
      \<lparr>pending = [], total = 0, trace = [DbConnect]\<rparr> d")
  show ?thesis
  proof (cases e)
    case None
    from insert_items_ok [OF r [unfolded None]]
    have "trace t = DbConnect # map DbInsert (concat (map snd d))"
      by simp
    with True r None show ?thesis
      by (simp add: save_holdings_def)
  next
    case (Some err)
    from insert_items_trace [of srv "etf_holdings db"
        "\<lparr>pending = [], total = 0, trace = [DbConnect]\<rparr>" d] r
    obtain hs' where "trace t = DbConnect # map DbInsert hs'"
      and "set hs' \<subseteq> set (concat (map snd d))"
      by auto
    with True r Some show ?thesis
      by (intro disjI1 exI [of _ hs']) (simp add: save_holdings_def)
  qed
qed

lemma save_holdings_ok:
  assumes "fst (save_holdings srv d db) = Inr ()"
  shows "fst (snd (save_holdings srv d db)) =
           db\<lparr>etf_holdings := etf_holdings db @ concat (map snd d)\<rparr> \<and>
         snd (snd (save_holdings srv d db)) =
           [DbConnect] @ map DbInsert (concat (map snd d)) @ [DbCommit, DbClose]"
proof -
  obtain t e where r: "insert_items srv (etf_holdings db)
      \<lparr>pending = [], total = 0, trace = [DbConnect]\<rparr> d = (t, e)"
    by (cases "insert_items srv (etf_holdings db)
      \<lparr>pending = [], total = 0, trace = [DbConnect]\<rparr> d")
  with assms have c: "can_connect srv" and e: "e = None" and k: "commit_ok srv"
    by (auto simp add: save_holdings_def split: if_splits option.splits)
  from insert_items_ok [OF r [unfolded e]] r c e k show ?thesis
    by (simp add: save_holdings_def)
qed

lemma save_holdings_failed:
  assumes "fst (save_holdings srv d db) = Inl e"
  shows "fst (snd (save_holdings srv d db)) = db"
  using assms
  by (auto simp add: save_holdings_def split: if_splits prod.splits option.splits)

lemma save_holdings_inserts:
  assumes "DbInsert h \<in> set (snd (snd (save_holdings srv d db)))"
  shows "h \<in> set (concat (map snd d))"
  using save_holdings_events [of srv d db] assms by auto

lemma save_holdings_db_events:
  "set (snd (snd (save_holdings srv d db))) \<subseteq> range DbInsert \<union> {DbConnect, DbCommit, DbClose}"
  using save_holdings_events [of srv d db] by auto

lemma save_holdings_commits:
  "length (filter (\<lambda>e. e = DbCommit) (snd (snd (save_holdings srv d db)))) \<le> 1"
  using save_holdings_events [of srv d db]
  by (auto simp add: no_commit_among_inserts)

lemma save_holdings_commit_last:
  assumes "DbCommit \<in> set (snd (snd (save_holdings srv d db)))"
  shows "\<exists>rest. snd (snd (save_holdings srv d db)) =
           [DbConnect] @ map DbInsert (concat (map snd d)) @ DbCommit # rest"
  using save_holdings_events [of srv d db] assms by auto

lemma save_holdings_scrape_log:
  "etf_scrape_log (fst (snd (save_holdings srv d db))) = etf_scrape_log db"
  by (simp add: save_holdings_def split: prod.splits option.splits)

lemma run_unfold:
  "run soup s envs srv db =
     (fst (save_holdings srv (fst (fetch_all soup s envs)) db),
      fst (snd (save_holdings srv (fst (fetch_all soup s envs)) db)),
      snd (fetch_all soup s envs) @
        snd (snd (save_holdings srv (fst (fetch_all soup s envs)) db)))"
  by (simp add: run_def case_prod_unfold Let_def)

lemma fetch_all_row_origin:
  assumes "distinct (map symbol (etfs s))"
    and "h \<in> set (concat (map snd (fst (fetch_all soup s envs))))"
  shows "\<exists>j < length (etfs s). h \<in> set (fst (fetch_etf soup s (envs j) (etfs s ! j)))"
  using assms(2)
  by (auto simp add: fetch_all_rows [OF assms(1)] in_set_enumerate_eq)

lemma fetch_all_no_rows_for:
  assumes "distinct (map symbol (etfs s))"
    and "i < length (etfs s)"
    and "fst (ZyteClient_fetch (zyte s) (envs i) (url (etfs s ! i))) = None"
    and "h \<in> set (concat (map snd (fst (fetch_all soup s envs))))"
  shows "etf_symbol h \<noteq> symbol (etfs s ! i)"
proof
  assume eq: "etf_symbol h = symbol (etfs s ! i)"
  from fetch_all_row_origin [OF assms(1) assms(4)]
  obtain j where j: "j < length (etfs s)"
    and h: "h \<in> set (fst (fetch_etf soup s (envs j) (etfs s ! j)))"
    by blast
  from h fetch_etf_symbol [of soup s "envs j" "etfs s ! j"]
  have "etf_symbol h = symbol (etfs s ! j)"
    by blast
  with eq have "map symbol (etfs s) ! j = map symbol (etfs s) ! i"
    using j assms(2) by simp
  moreover have "(map symbol (etfs s) ! j = map symbol (etfs s) ! i) = (j = i)"
    using assms(1) j assms(2) by (intro nth_eq_iff_index_eq) simp_all
  ultimately have "j = i"
    by blast
  with h fetch_etf_no_content [OF assms(3), of soup] show False
    by simp
qed

subsection \<open>Only the rendering service is called\<close>

text \<open>
  Claim C10. For every fund, the per-fund fetch calls only the rendering-service
  client: its trace holds at most the one request to that service. When that client
  returns no page the fund's result is the empty list; without a credential no request
  is made at all and the result is empty. The direct client is built by the constructor
  and never called: the result of a fetch does not depend on it or on what a direct
  request would have returned, and no direct request appears in the trace of a run.
\<close>

theorem fetch_etf_zyte_only:
  "set (snd (fetch_etf soup s env etf)) \<subseteq> {ZytePost (url etf)} \<and>
   (fst (ZyteClient_fetch (zyte s) env (url etf)) = None \<longrightarrow>
      fst (fetch_etf soup s env etf) = []) \<and>
   (api_key (zyte s) = [] \<longrightarrow> fetch_etf soup s env etf = ([], [])) \<and>
   fetch_etf soup (s\<lparr>direct := d\<rparr>) (env\<lparr>direct_reply := r\<rparr>) etf = fetch_etf soup s env etf \<and>
   direct (ETFScraper_init environ funds) = DirectClient_init \<and>
   (\<forall>u. DirectGet u \<notin> set (snd (snd (run soup s envs srv db))))"
proof (intro conjI allI impI)
  show "set (snd (fetch_etf soup s env etf)) \<subseteq> {ZytePost (url etf)}"
    by (rule fetch_etf_events)
  show "fst (fetch_etf soup s env etf) = []"
    if "fst (ZyteClient_fetch (zyte s) env (url etf)) = None"
    using that by (rule fetch_etf_no_content)
  show "fetch_etf soup s env etf = ([], [])" if "api_key (zyte s) = []"
    using that by (simp add: fetch_etf_def ZyteClient_fetch_def)
  show "fetch_etf soup (s\<lparr>direct := d\<rparr>) (env\<lparr>direct_reply := r\<rparr>) etf =
        fetch_etf soup s env etf"
    by (simp add: fetch_etf_def ZyteClient_fetch_def split: option.splits)
  show "direct (ETFScraper_init environ funds) = DirectClient_init"
    by (simp add: ETFScraper_init_def)
  show "DirectGet u \<notin> set (snd (snd (run soup s envs srv db)))" for u
    using fetch_all_events [of soup s envs]
      save_holdings_db_events [of srv "fst (fetch_all soup s envs)" db]
    by (auto simp add: run_unfold)
qed

text \<open>
  Two instances for the first sample fund: a scraper built without a credential, and
  the sample scraper when the service answers with status 503.
\<close>

theorem fetch_etf_zyte_only_witness:
  "api_key (zyte (ETFScraper_init Map.empty sample_funds)) = [] \<and>
   fst (ZyteClient_fetch (zyte (ETFScraper_init Map.empty sample_funds)) env_up
          (url (hd sample_funds))) = None \<and>
   fetch_etf sample_soup (ETFScraper_init Map.empty sample_funds) env_up (hd sample_funds) =
     ([], []) \<and>
   fst (ZyteClient_fetch (zyte sample_scraper) env_down (url (hd sample_funds))) = None \<and>
   fetch_etf sample_soup sample_scraper env_down (hd sample_funds) =
     ([], [ZytePost ''https://example.com/0050''])"
proof -
  have key: "api_key (zyte (ETFScraper_init Map.empty sample_funds)) = []"
    by (simp add: ETFScraper_init_def ZyteClient_init_def os_getenv_def)
  have none: "fst (ZyteClient_fetch (zyte sample_scraper) env_down (url (hd sample_funds))) = None"
    by code_simp
  have ev: "snd (fetch_etf sample_soup sample_scraper env_down (hd sample_funds)) =
      [ZytePost ''https://example.com/0050'']"
    by code_simp
  note a = fetch_etf_zyte_only
    [of sample_soup "ETFScraper_init Map.empty sample_funds" env_up "hd sample_funds"]
  note b = fetch_etf_zyte_only [of sample_soup sample_scraper env_down "hd sample_funds"]
  from key a have 1: "fetch_etf sample_soup (ETFScraper_init Map.empty sample_funds) env_up
      (hd sample_funds) = ([], [])"
    by blast
  from none b have 2: "fst (fetch_etf sample_soup sample_scraper env_down (hd sample_funds)) = []"
    by blast
  have 3: "fst (ZyteClient_fetch (zyte (ETFScraper_init Map.empty sample_funds)) env_up
          (url (hd sample_funds))) = None"
    using key by (simp add: ZyteClient_fetch_def)
  from 2 ev have 4: "fetch_etf sample_soup sample_scraper env_down (hd sample_funds) =
     ([], [ZytePost ''https://example.com/0050''])"
    by (simp add: prod_eq_iff)
  from key 3 1 none 4 show ?thesis
    by blast
qed

subsection \<open>Full join and failure isolation\<close>

text \<open>
  Claim C4. Fund symbols are the unique keys of the configuration, so they are taken to
  be distinct. Suppose the fetch of the \<open>i\<close>-th fund yields no content. Then the batch
  handed to persistence has one entry per configured fund, in order; the entry of fund
  \<open>i\<close> is the empty list; the entry of every fund is what its own task computed, so
  it is the same in any run that differs only in what fund \<open>i\<close> observes; the trace
  of the run is the requests of all the fetch tasks followed by the calls that persist
  the complete batch; no row of fund \<open>i\<close> is sent to the database, and the stored rows
  of fund \<open>i\<close> are the same after the run as before it.
\<close>

theorem fetch_all_isolates_failure:
  assumes "distinct (map symbol (etfs s))"
    and "i < length (etfs s)"
    and "fst (ZyteClient_fetch (zyte s) (envs i) (url (etfs s ! i))) = None"
  shows
    "map fst (fst (fetch_all soup s envs)) = map symbol (etfs s) \<and>
     map_of (fst (fetch_all soup s envs)) (symbol (etfs s ! i)) = Some [] \<and>
     (\<forall>j < length (etfs s).
        map_of (fst (fetch_all soup s envs)) (symbol (etfs s ! j)) =
        Some (fst (fetch_etf soup s (envs j) (etfs s ! j)))) \<and>
     (\<forall>envs'. (\<forall>j. j \<noteq> i \<longrightarrow> envs' j = envs j) \<longrightarrow>
        (\<forall>j < length (etfs s). j \<noteq> i \<longrightarrow>
           map_of (fst (fetch_all soup s envs')) (symbol (etfs s ! j)) =
           map_of (fst (fetch_all soup s envs)) (symbol (etfs s ! j)))) \<and>
     snd (snd (run soup s envs srv db)) =
       snd (fetch_all soup s envs) @
       snd (snd (save_holdings srv (fst (fetch_all soup s envs)) db)) \<and>
     set (snd (fetch_all soup s envs)) \<subseteq> range ZytePost \<and>
     set (snd (snd (save_holdings srv (fst (fetch_all soup s envs)) db))) \<subseteq>
       range DbInsert \<union> {DbConnect, DbCommit, DbClose} \<and>
     (\<forall>h. DbInsert h \<in> set (snd (snd (run soup s envs srv db))) \<longrightarrow>
        etf_symbol h \<noteq> symbol (etfs s ! i)) \<and>
     filter (\<lambda>h. etf_symbol h = symbol (etfs s ! i))
       (etf_holdings (fst (snd (run soup s envs srv db)))) =
     filter (\<lambda>h. etf_symbol h = symbol (etfs s ! i)) (etf_holdings db)"
proof (intro conjI allI impI)
  show "map fst (fst (fetch_all soup s envs)) = map symbol (etfs s)"
    using assms(1) by (rule fetch_all_keys)
  show "map_of (fst (fetch_all soup s envs)) (symbol (etfs s ! i)) = Some []"
    using fetch_all_lookup [OF assms(1) assms(2), of soup envs]
      fetch_etf_no_content [OF assms(3), of soup]
    by simp
  show "map_of (fst (fetch_all soup s envs)) (symbol (etfs s ! j)) =
        Some (fst (fetch_etf soup s (envs j) (etfs s ! j)))" if "j < length (etfs s)" for j
    using assms(1) that by (rule fetch_all_lookup)
  show "map_of (fst (fetch_all soup s envs')) (symbol (etfs s ! j)) =
        map_of (fst (fetch_all soup s envs)) (symbol (etfs s ! j))"
    if "\<forall>j. j \<noteq> i \<longrightarrow> envs' j = envs j" and "j < length (etfs s)" and "j \<noteq> i" for envs' j
    using that fetch_all_lookup [OF assms(1) that(2), of soup envs]
      fetch_all_lookup [OF assms(1) that(2), of soup envs']
    by simp
  show "snd (snd (run soup s envs srv db)) =
       snd (fetch_all soup s envs) @
       snd (snd (save_holdings srv (fst (fetch_all soup s envs)) db))"
    by (simp add: run_unfold)
  show "set (snd (fetch_all soup s envs)) \<subseteq> range ZytePost"
    by (rule fetch_all_events)
  show "set (snd (snd (save_holdings srv (fst (fetch_all soup s envs)) db))) \<subseteq>
       range DbInsert \<union> {DbConnect, DbCommit, DbClose}"
    by (rule save_holdings_db_events)
  show "etf_symbol h \<noteq> symbol (etfs s ! i)"
    if "DbInsert h \<in> set (snd (snd (run soup s envs srv db)))" for h
  proof -
    from that fetch_all_events [of soup s envs]
    have "DbInsert h \<in> set (snd (snd (save_holdings srv (fst (fetch_all soup s envs)) db)))"
      by (auto simp add: run_unfold)
    then have "h \<in> set (concat (map snd (fst (fetch_all soup s envs))))"
      by (rule save_holdings_inserts)
    with assms show ?thesis
      using fetch_all_no_rows_for [of s i envs h soup] by blast
  qed
  show "filter (\<lambda>h. etf_symbol h = symbol (etfs s ! i))
       (etf_holdings (fst (snd (run soup s envs srv db)))) =
     filter (\<lambda>h. etf_symbol h = symbol (etfs s ! i)) (etf_holdings db)"
  proof (cases "fst (save_holdings srv (fst (fetch_all soup s envs)) db)")
    case (Inl e)
    from save_holdings_failed [OF this] show ?thesis
      by (simp add: run_unfold)
  next
    case (Inr u)
    then have "fst (save_holdings srv (fst (fetch_all soup s envs)) db) = Inr ()"
      by simp
    from save_holdings_ok [OF this]
    have "etf_holdings (fst (snd (run soup s envs srv db))) =
        etf_holdings db @ concat (map snd (fst (fetch_all soup s envs)))"
      by (simp add: run_unfold)
    moreover have "filter (\<lambda>h. etf_symbol h = symbol (etfs s ! i))
        (concat (map snd (fst (fetch_all soup s envs)))) = []"
      using assms fetch_all_no_rows_for [of s i envs _ soup]
      by (auto simp add: filter_empty_conv)
    ultimately show ?thesis
      by simp
  qed
qed

text \<open>
  An instance: the service is down for the first sample fund and up for the second.
\<close>

theorem fetch_all_isolates_failure_witness:
  "distinct (map symbol (etfs sample_scraper)) \<and>
   fst (ZyteClient_fetch (zyte sample_scraper) env_down (url (etfs sample_scraper ! 0))) = None \<and>
   map_of (fst (fetch_all sample_soup sample_scraper (\<lambda>i. if i = 0 then env_down else env_up)))
     ''0050'' = Some [] \<and>
   map rank (etf_holdings (fst (snd
     (run sample_soup sample_scraper (\<lambda>i. if i = 0 then env_down else env_up)
        server_ok empty_db)))) = [1, 2] \<and>
   filter (\<lambda>h. etf_symbol h = ''0050'') (etf_holdings (fst (snd
     (run sample_soup sample_scraper (\<lambda>i. if i = 0 then env_down else env_up)
        server_ok empty_db)))) = []"
proof -
  let ?envs = "\<lambda>i::nat. if i = 0 then env_down else env_up"
  have d: "distinct (map symbol (etfs sample_scraper))"
    by code_simp
  have i: "0 < length (etfs sample_scraper)"
    by code_simp
  have none: "fst (ZyteClient_fetch (zyte sample_scraper) (?envs 0)
      (url (etfs sample_scraper ! 0))) = None"
    by code_simp
  have sym: "symbol (etfs sample_scraper ! 0) = ''0050''"
    by code_simp
  have ranks: "map rank (etf_holdings (fst (snd
     (run sample_soup sample_scraper ?envs server_ok empty_db)))) = [1, 2]"
    by code_simp
  from d i none
  have inst: "map_of (fst (fetch_all sample_soup sample_scraper ?envs)) ''0050'' = Some [] \<and>
     filter (\<lambda>h. etf_symbol h = ''0050'') (etf_holdings (fst (snd
       (run sample_soup sample_scraper ?envs server_ok empty_db)))) =
     filter (\<lambda>h. etf_symbol h = ''0050'') (etf_holdings empty_db)"
    using fetch_all_isolates_failure [of sample_scraper 0 ?envs sample_soup server_ok empty_db]
    unfolding sym by blast
  from inst have 1: "map_of (fst (fetch_all sample_soup sample_scraper ?envs)) ''0050'' = Some []"
    by blast
  from inst have "filter (\<lambda>h. etf_symbol h = ''0050'') (etf_holdings (fst (snd
     (run sample_soup sample_scraper ?envs server_ok empty_db)))) =
     filter (\<lambda>h. etf_symbol h = ''0050'') (etf_holdings empty_db)"
    by blast
  then have 2: "filter (\<lambda>h. etf_symbol h = ''0050'') (etf_holdings (fst (snd
     (run sample_soup sample_scraper ?envs server_ok empty_db)))) = []"
    by (simp add: empty_db_def)
  from none have 3: "fst (ZyteClient_fetch (zyte sample_scraper) env_down
      (url (etfs sample_scraper ! 0))) = None"
    by simp
  from d 3 1 ranks 2 show ?thesis
    by blast
qed

subsection \<open>One transaction, one commit\<close>

text \<open>
  Claim C7. Persisting a batch opens one connection, inserts the rows of all funds in
  order and commits once, after the last insert. If the call fails (no connection, a
  row rejected partway, or the commit refused), the stored database is what it was
  before the call: none of the rows is persisted. If it succeeds, the stored holdings
  are the old rows followed by every row of the batch, and the trace is the connection,
  one insert per row, one commit and the close. No call issues more than one commit,
  and a commit is issued only after every row of the batch has been inserted.
\<close>

theorem save_holdings_atomic:
  "(\<forall>e. fst (save_holdings srv d db) = Inl e \<longrightarrow>
      fst (snd (save_holdings srv d db)) = db) \<and>
   (fst (save_holdings srv d db) = Inr () \<longrightarrow>
      fst (snd (save_holdings srv d db)) =
        db\<lparr>etf_holdings := etf_holdings db @ concat (map snd d)\<rparr> \<and>
      snd (snd (save_holdings srv d db)) =
        [DbConnect] @ map DbInsert (concat (map snd d)) @ [DbCommit, DbClose] \<and>
      length (filter (\<lambda>e. e = DbCommit) (snd (snd (save_holdings srv d db)))) = 1) \<and>
   length (filter (\<lambda>e. e = DbCommit) (snd (snd (save_holdings srv d db)))) \<le> 1 \<and>
   (DbCommit \<in> set (snd (snd (save_holdings srv d db))) \<longrightarrow>
      (\<exists>rest. snd (snd (save_holdings srv d db)) =
         [DbConnect] @ map DbInsert (concat (map snd d)) @ DbCommit # rest))"
proof (intro conjI allI impI)
  fix e
  assume "fst (save_holdings srv d db) = Inl e"
  then show "fst (snd (save_holdings srv d db)) = db"
    by (rule save_holdings_failed)
next
  assume "fst (save_holdings srv d db) = Inr ()"
  from save_holdings_ok [OF this]
  show "fst (snd (save_holdings srv d db)) =
        db\<lparr>etf_holdings := etf_holdings db @ concat (map snd d)\<rparr>"
    and ev: "snd (snd (save_holdings srv d db)) =
        [DbConnect] @ map DbInsert (concat (map snd d)) @ [DbCommit, DbClose]"
    by simp_all
  from ev show "length (filter (\<lambda>e. e = DbCommit) (snd (snd (save_holdings srv d db)))) = 1"
    by (simp add: no_commit_among_inserts)
next
  show "length (filter (\<lambda>e. e = DbCommit) (snd (snd (save_holdings srv d db)))) \<le> 1"
    by (rule save_holdings_commits)
next
  assume "DbCommit \<in> set (snd (snd (save_holdings srv d db)))"
  then show "\<exists>rest. snd (snd (save_holdings srv d db)) =
         [DbConnect] @ map DbInsert (concat (map snd d)) @ DbCommit # rest"
    by (rule save_holdings_commit_last)
qed

text \<open>
  Two instances with the four rows of the two sample funds: a server that rejects rows
  of rank 2 accepts the first row and fails on the second, so that the trace ends with
  the second insert and nothing is stored; a server that accepts every row stores all
  four.
\<close>

theorem save_holdings_atomic_witness:
  "fst (save_holdings server_picky
          (fst (fetch_all sample_soup sample_scraper (\<lambda>i. env_up))) empty_db) =
     Inl DatabaseError \<and>
   fst (snd (save_holdings server_picky
          (fst (fetch_all sample_soup sample_scraper (\<lambda>i. env_up))) empty_db)) = empty_db \<and>
   length (snd (snd (save_holdings server_picky
          (fst (fetch_all sample_soup sample_scraper (\<lambda>i. env_up))) empty_db))) = 3 \<and>
   fst (save_holdings server_ok
          (fst (fetch_all sample_soup sample_scraper (\<lambda>i. env_up))) empty_db) = Inr () \<and>
   length (etf_holdings (fst (snd (save_holdings server_ok
          (fst (fetch_all sample_soup sample_scraper (\<lambda>i. env_up))) empty_db)))) = 4"
proof -
  have bad: "fst (save_holdings server_picky
          (fst (fetch_all sample_soup sample_scraper (\<lambda>i. env_up))) empty_db) =
     Inl DatabaseError"
    by code_simp
  have n: "length (snd (snd (save_holdings server_picky
          (fst (fetch_all sample_soup sample_scraper (\<lambda>i. env_up))) empty_db))) = 3"
    by code_simp
  have good: "fst (save_holdings server_ok
          (fst (fetch_all sample_soup sample_scraper (\<lambda>i. env_up))) empty_db) = Inr ()"
    by code_simp
  have rows: "length (concat (map snd
      (fst (fetch_all sample_soup sample_scraper (\<lambda>i. env_up))))) = 4"
    by code_simp
  from bad save_holdings_atomic
    [of server_picky "fst (fetch_all sample_soup sample_scraper (\<lambda>i. env_up))" empty_db]
  have 1: "fst (snd (save_holdings server_picky
          (fst (fetch_all sample_soup sample_scraper (\<lambda>i. env_up))) empty_db)) = empty_db"
    by blast
  from good save_holdings_atomic
    [of server_ok "fst (fetch_all sample_soup sample_scraper (\<lambda>i. env_up))" empty_db]
  have "fst (snd (save_holdings server_ok
          (fst (fetch_all sample_soup sample_scraper (\<lambda>i. env_up))) empty_db)) =
      empty_db\<lparr>etf_holdings := etf_holdings empty_db @ concat (map snd
        (fst (fetch_all sample_soup sample_scraper (\<lambda>i. env_up))))\<rparr>"
    by blast
  with rows have 2: "length (etf_holdings (fst (snd (save_holdings server_ok
          (fst (fetch_all sample_soup sample_scraper (\<lambda>i. env_up))) empty_db)))) = 4"
    by (simp add: empty_db_def)
  from bad 1 n good 2 show ?thesis
    by blast
qed

subsection \<open>Persisting the same batch twice\<close>

text \<open>
  Claim C8. When the same batch is persisted twice and both calls succeed, the second
  call appends a second copy of every row: the holdings table is the original rows
  followed by the batch twice, so for every fund symbol and trade date the rows of the
  batch with that symbol and date are stored twice, every row of the batch occurs at
  least twice, and the table after the second call differs from the table after the
  first unless the batch has no rows.
\<close>

theorem save_holdings_twice_appends:
  assumes "save_holdings srv d db = (Inr (), db1, ev1)"
    and "save_holdings srv d db1 = (Inr (), db2, ev2)"
  shows "etf_holdings db2 = etf_holdings db @ concat (map snd d) @ concat (map snd d) \<and>
     filter (\<lambda>h. etf_symbol h = fund \<and> trade_date h = dt) (etf_holdings db2) =
       filter (\<lambda>h. etf_symbol h = fund \<and> trade_date h = dt) (etf_holdings db) @
       filter (\<lambda>h. etf_symbol h = fund \<and> trade_date h = dt) (concat (map snd d)) @
       filter (\<lambda>h. etf_symbol h = fund \<and> trade_date h = dt) (concat (map snd d)) \<and>
     (\<forall>h \<in> set (concat (map snd d)). 2 \<le> count_list (etf_holdings db2) h) \<and>
     (concat (map snd d) \<noteq> [] \<longrightarrow> etf_holdings db2 \<noteq> etf_holdings db1)"
proof -
  from assms(1) save_holdings_ok [of srv d db]
  have 1: "etf_holdings db1 = etf_holdings db @ concat (map snd d)"
    by simp
  from assms(2) save_holdings_ok [of srv d db1]
  have 2: "etf_holdings db2 = etf_holdings db1 @ concat (map snd d)"
    by simp
  have cnt: "2 \<le> count_list (etf_holdings db2) h" if "h \<in> set (concat (map snd d))" for h
  proof -
    from that have "0 < count_list (concat (map snd d)) h"
      using count_list_0_iff [of "concat (map snd d)" h] by (simp del: count_list_0_iff)
    then show ?thesis
      by (simp add: 1 2)
  qed
  from 1 2 cnt show ?thesis
    by simp
qed

text \<open>
  An instance: the two sample rows of one fund, persisted twice into an empty database.
\<close>

theorem save_holdings_twice_appends_witness:
  "map rank (etf_holdings (fst (snd (save_holdings server_ok
       [(''0050'', parse_holdings sample_soup (\<lambda>k. Date 2024 1 2) ''<html>'' ''0050'')]
       (fst (snd (save_holdings server_ok
          [(''0050'', parse_holdings sample_soup (\<lambda>k. Date 2024 1 2) ''<html>'' ''0050'')]
          empty_db))))))) = [1, 2, 1, 2]"
proof -
  let ?d = "[(''0050'', parse_holdings sample_soup (\<lambda>k. Date 2024 1 2) ''<html>'' ''0050'')]"
  let ?r1 = "save_holdings server_ok ?d empty_db"
  let ?r2 = "save_holdings server_ok ?d (fst (snd ?r1))"
  have "fst ?r1 = Inr ()"
    by code_simp
  then have a: "?r1 = (Inr (), fst (snd ?r1), snd (snd ?r1))"
    by (simp add: prod_eq_iff)
  have "fst ?r2 = Inr ()"
    by code_simp
  then have b: "?r2 = (Inr (), fst (snd ?r2), snd (snd ?r2))"
    by (simp add: prod_eq_iff)
  have rows: "map rank (concat (map snd ?d)) = [1, 2]"
    by code_simp
  from save_holdings_twice_appends [OF a b]
  have "etf_holdings (fst (snd ?r2)) =
      etf_holdings empty_db @ concat (map snd ?d) @ concat (map snd ?d)"
    by blast
  then have "map rank (etf_holdings (fst (snd ?r2))) =
      map rank (concat (map snd ?d)) @ map rank (concat (map snd ?d))"
    by (simp add: empty_db_def)
  with rows show ?thesis
    by simp
qed

subsection \<open>The scrape log\<close>

text \<open>
  Claim C1, as stated, fails: the pipeline never writes to the scrape log. In this run
  of the two sample funds the first fetch fails and the second succeeds; the run
  completes and stores two holdings rows, and the scrape log holds no row for either
  fund.
\<close>

theorem run_scrape_log_counterexample:
  "fst (run sample_soup sample_scraper (\<lambda>i. if i = 0 then env_down else env_up)
          server_ok empty_db) = Inr () \<and>
   length (etf_holdings (fst (snd
     (run sample_soup sample_scraper (\<lambda>i. if i = 0 then env_down else env_up)
        server_ok empty_db)))) = 2 \<and>
   length (filter (\<lambda>e. log_etf_symbol e = ''0056'' \<and> scrape_date e = Date 2024 1 2)
     (etf_scrape_log (fst (snd
        (run sample_soup sample_scraper (\<lambda>i. if i = 0 then env_down else env_up)
           server_ok empty_db))))) = 0 \<and>
   length (filter (\<lambda>e. log_etf_symbol e = ''0050'' \<and> scrape_date e = Date 2024 1 2)
     (etf_scrape_log (fst (snd
        (run sample_soup sample_scraper (\<lambda>i. if i = 0 then env_down else env_up)
           server_ok empty_db))))) = 0"
  by code_simp

text \<open>
  Claim C1, amended. A run records no scrape-log row: for every configured fund set and
  every run, whether fetches or persistence succeed or fail, the scrape log holds
  after the run exactly the rows it held before. The only table a run writes is the
  holdings table.
\<close>

theorem run_leaves_scrape_log:
  "etf_scrape_log (fst (snd (run soup s envs srv db))) = etf_scrape_log db"
  by (simp add: run_unfold save_holdings_scrape_log)

end
